theory Spec2Isabelle
  imports Main "HOL-Library.Sublist"
begin

section \<open>Text, paths and the file system\<close>

text \<open>
  The two scripts, \<^verbatim>\<open>src/project_files/vanilla/setup.py\<close> (variant A) and
  \<^verbatim>\<open>src/setup.py\<close> (variant B), read text files and hand a keyword record to
  \<^verbatim>\<open>setuptools.setup\<close>.

  A Python \<^verbatim>\<open>str\<close> is a sequence of Unicode code points, so it is a list of naturals
  here (a \<open>char\<close> of HOL has only 256 values, and \<^verbatim>\<open>str.splitlines\<close> also breaks at
  U+2028 and U+2029). \<open>str\<close> turns a literal of the theory into such a sequence.
\<close>

type_synonym pystr = "nat list"

type_synonym path = string

definition str :: "string \<Rightarrow> pystr" where
  "str s = map of_char s"

definition LF :: nat where
  "LF = 10"

definition CR :: nat where
  "CR = 13"

definition DQUOTE :: nat where
  "DQUOTE = 34"

text \<open>
  The file system is seen through Python's text layer: for each path it gives the string
  that \<^verbatim>\<open>open(path, "r", encoding="utf-8")\<close> followed by \<^verbatim>\<open>f.read()\<close> returns, or
  \<open>None\<close> when the file is absent or unreadable, that is when \<^verbatim>\<open>open\<close> or \<^verbatim>\<open>read\<close>
  raises. The scripts catch nothing, so the exception ends the run. Decoding and the
  translation of line ends that the text layer does are below this model.
\<close>

type_synonym filesystem = "path \<Rightarrow> pystr option"

definition README :: path where
  "README = ''README.md''"

definition REQUIREMENTS :: path where
  "REQUIREMENTS = ''requirements.txt''"

definition REQUIREMENTS_DEV :: path where
  "REQUIREMENTS_DEV = ''requirements-dev.txt''"

definition PROJECT_NAME :: string where
  "PROJECT_NAME = ''project''"

definition VERSION_FILE :: path where
  "VERSION_FILE = PROJECT_NAME @ ''/__init__.py''"

section \<open>\<^verbatim>\<open>str.splitlines\<close>\<close>

text \<open>
  The line boundaries of \<^verbatim>\<open>str.splitlines\<close>: LF, VT, FF, CR, FS, GS, RS, NEL, LS and PS;
  CR followed by LF is one boundary.
\<close>

definition is_linebreak :: "nat \<Rightarrow> bool" where
  "is_linebreak c \<longleftrightarrow> c \<in> set [0x0A, 0x0B, 0x0C, 0x0D, 0x1C, 0x1D, 0x1E, 0x85, 0x2028, 0x2029]"

text \<open>The text after the line boundary that starts at the head of the argument.\<close>

fun skip_break :: "pystr \<Rightarrow> pystr" where
  "skip_break [] = []"
| "skip_break [b] = []"
| "skip_break (b # c # cs) = (if b = CR \<and> c = LF then cs else c # cs)"

text \<open>
  \<^verbatim>\<open>splitlines()\<close> (without \<^verbatim>\<open>keepends\<close>): while text is left, scan to the next line
  boundary or to the end, append the scanned piece, and go on after the boundary. Nothing is
  appended for the empty rest after a final boundary.
\<close>

function splitlines :: "pystr \<Rightarrow> pystr list" where
  "splitlines [] = []"
| "splitlines (c # cs) =
     (let line = takeWhile (\<lambda>x. \<not> is_linebreak x) (c # cs);
          rest = dropWhile (\<lambda>x. \<not> is_linebreak x) (c # cs)
      in line # (if rest = [] then [] else splitlines (skip_break rest)))"
  by pat_completeness auto

lemma length_skip_break: "s \<noteq> [] \<Longrightarrow> length (skip_break s) < length s"
  by (induction s rule: skip_break.induct) auto

termination splitlines
proof (relation "measure length")
  show "wf (measure length)" by simp
next
  fix c :: nat and cs x xa
  assume r: "xa = dropWhile (\<lambda>x. \<not> is_linebreak x) (c # cs)" and ne: "xa \<noteq> []"
  have "length (skip_break xa) < length xa"
    using ne by (rule length_skip_break)
  also have "length xa \<le> length (c # cs)"
    unfolding r by (rule length_dropWhile_le)
  finally show "(skip_break xa, c # cs) \<in> measure length" by simp
qed

section \<open>The version pattern\<close>

text \<open>
  Variant A searches the text of the version file with
  \<^verbatim>\<open>re.search(r"^__version__ = \"([^\"]*)\"", text, re.MULTILINE)\<close>.
  The pattern is the anchor \<^verbatim>\<open>^\<close>, the literal \<^verbatim>\<open>__version__ = "\<close>, the group
  \<^verbatim>\<open>[^"]*\<close> and a closing double quote.
\<close>

definition VERSION_LITERAL :: pystr where
  \<open>VERSION_LITERAL = str ''__version__ = "''\<close>

text \<open>
  The pattern without its anchor, tried at the head of \<open>s\<close>: after the literal the greedy
  group takes every character up to the next double quote (line breaks too, the class
  excludes the quote only), and the match needs that quote to exist. The value is what
  \<^verbatim>\<open>group(1)\<close> of the match returns.
\<close>

definition match_here :: "pystr \<Rightarrow> pystr option" where
  "match_here s =
     (if prefix VERSION_LITERAL s then
        (let rest = drop (length VERSION_LITERAL) s in
         if DQUOTE \<in> set rest then Some (takeWhile (\<lambda>c. c \<noteq> DQUOTE) rest) else None)
      else None)"

text \<open>
  \<^verbatim>\<open>re.search\<close> tries the start positions from left to right and stops at the first
  match. With \<^verbatim>\<open>re.MULTILINE\<close> the anchor holds at the start of the text and right
  after each LF; \<open>bol\<close> says whether it holds at the head of the argument.
\<close>

fun re_search_from :: "bool \<Rightarrow> pystr \<Rightarrow> pystr option" where
  "re_search_from bol [] = None"
| "re_search_from bol (c # cs) =
     (case (if bol then match_here (c # cs) else None) of
        Some g \<Rightarrow> Some g
      | None \<Rightarrow> re_search_from (c = LF) cs)"

text \<open>\<^verbatim>\<open>version_re\<close>: \<open>None\<close> as in the source, or the first group of the match.\<close>

definition version_re :: "pystr \<Rightarrow> pystr option" where
  "version_re s = re_search_from True s"

section \<open>The configuration record and the run of a script\<close>

text \<open>
  The keyword arguments of the call of \<^verbatim>\<open>setup\<close>. Variant B passes no
  \<^verbatim>\<open>setup_requires\<close>, hence the option. \<^verbatim>\<open>extras_require\<close> is a dictionary.
\<close>

record config =
  name :: pystr
  version :: pystr
  description :: pystr
  author :: pystr
  url :: pystr
  long_description :: pystr
  long_description_content_type :: pystr
  python_requires :: pystr
  setup_requires :: "pystr list option"
  install_requires :: "pystr list"
  tests_require :: "pystr list"
  extras_require :: "pystr \<rightharpoonup> pystr list"

text \<open>
  What a run does to the outside, in order: it opens files and it calls \<^verbatim>\<open>setup\<close>.
  What \<^verbatim>\<open>setup\<close> does with the record is the packaging tool's business.
\<close>

datatype event = Open_file path | Call_setup config

datatype error = FileAccessError path | AssertionError pystr

text \<open>
  A statement of a script takes the events so far and gives its value or the exception it
  raises, with the events extended. \<open>bind\<close> is the sequencing of two statements: an
  exception of the first skips the second.
\<close>

type_synonym 'a action = "event list \<Rightarrow> (error + 'a) \<times> event list"

definition bind :: "'a action \<Rightarrow> ('a \<Rightarrow> 'b action) \<Rightarrow> 'b action" where
  "bind m f evs = (case m evs of (Inl e, evs') \<Rightarrow> (Inl e, evs') | (Inr x, evs') \<Rightarrow> f x evs')"

definition return_value :: "'a \<Rightarrow> 'a action" where
  "return_value x evs = (Inr x, evs)"

text \<open>\<^verbatim>\<open>with open(p, "r", encoding="utf-8") as f: ... f.read()\<close>\<close>

definition open_read :: "filesystem \<Rightarrow> path \<Rightarrow> pystr action" where
  "open_read fs p evs =
     (case fs p of
        None \<Rightarrow> (Inl (FileAccessError p), evs @ [Open_file p])
      | Some content \<Rightarrow> (Inr content, evs @ [Open_file p]))"

text \<open>\<^verbatim>\<open>with open(p, "r", encoding="utf-8") as f: ... f.read().splitlines()\<close>\<close>

definition read_lines :: "filesystem \<Rightarrow> path \<Rightarrow> pystr list action" where
  "read_lines fs p = bind (open_read fs p) (\<lambda>content. return_value (splitlines content))"

text \<open>
  \<^verbatim>\<open>assert version_re is not None, msg\<close> followed by \<^verbatim>\<open>version_re.group(1)\<close>.
  The interpreter runs the scripts as they are, with their \<^verbatim>\<open>assert\<close> statements
  (no \<^verbatim>\<open>-O\<close>).
\<close>

definition assert_found :: "pystr option \<Rightarrow> pystr \<Rightarrow> pystr action" where
  "assert_found m msg evs =
     (case m of None \<Rightarrow> (Inl (AssertionError msg), evs) | Some g \<Rightarrow> (Inr g, evs))"

definition call_setup :: "config \<Rightarrow> unit action" where
  "call_setup cfg evs = (Inr (), evs @ [Call_setup cfg])"

subsection \<open>Variant A, \<^verbatim>\<open>src/project_files/vanilla/setup.py\<close>\<close>

definition NOT_FOUND_MESSAGE :: pystr where
  "NOT_FOUND_MESSAGE = str ''Could not find version in '' @ str PROJECT_NAME @ str ''/__init__.py''"

text \<open>The keyword arguments of the call of \<^verbatim>\<open>setup\<close>, from the four values computed before.\<close>

definition setup_kwargs_A :: "pystr \<Rightarrow> pystr list \<Rightarrow> pystr list \<Rightarrow> pystr \<Rightarrow> config" where
  "setup_kwargs_A long_description' requirements requirements_dev version' =
     \<lparr> name = str ''ml-project'',
       version = version',
       description = str ''Template repository for ML projects'',
       author = str ''Benjamin Bolte'',
       url = str ''https://github.com/codekansas/ml-project-template'',
       long_description = long_description',
       long_description_content_type = str ''text/markdown'',
       python_requires = str ''>=3.10'',
       setup_requires = Some [str ''cmake'', str ''mypy'', str ''pybind11'', str ''torch''],
       install_requires = requirements,
       tests_require = requirements_dev,
       extras_require = [str ''dev'' \<mapsto> requirements_dev] \<rparr>"

definition variant_A :: "filesystem \<Rightarrow> unit action" where
  "variant_A fs =
     bind (open_read fs README) (\<lambda>long_description'.
     bind (read_lines fs REQUIREMENTS) (\<lambda>requirements.
     bind (read_lines fs REQUIREMENTS_DEV) (\<lambda>requirements_dev.
     bind (open_read fs VERSION_FILE) (\<lambda>version_text.
     bind (assert_found (version_re version_text) NOT_FOUND_MESSAGE) (\<lambda>version'.
     call_setup (setup_kwargs_A long_description' requirements requirements_dev version'))))))"

subsection \<open>Variant B, \<^verbatim>\<open>src/setup.py\<close>\<close>

definition setup_kwargs_B :: "pystr \<Rightarrow> pystr list \<Rightarrow> pystr list \<Rightarrow> config" where
  "setup_kwargs_B long_description' requirements requirements_dev =
     \<lparr> name = str ''ml-project'',
       version = str ''0.0.1'',
       description = str ''Empty template repository for ML projects'',
       author = str ''Benjamin Bolte'',
       url = str ''https://github.com/codekansas/ml-starter'',
       long_description = long_description',
       long_description_content_type = str ''text/markdown'',
       python_requires = str ''>=3.10'',
       setup_requires = None,
       install_requires = requirements,
       tests_require = requirements_dev,
       extras_require = [str ''dev'' \<mapsto> requirements_dev] \<rparr>"

definition variant_B :: "filesystem \<Rightarrow> unit action" where
  "variant_B fs =
     bind (open_read fs README) (\<lambda>long_description'.
     bind (read_lines fs REQUIREMENTS) (\<lambda>requirements.
     bind (read_lines fs REQUIREMENTS_DEV) (\<lambda>requirements_dev.
     call_setup (setup_kwargs_B long_description' requirements requirements_dev))))"

subsection \<open>Runs\<close>

text \<open>
  A run starts with no event. Its first component is how it ends (\<open>Inr ()\<close>: the script
  ran to its end), the second what it did; \<open>setup_calls\<close> are the records given to
  \<^verbatim>\<open>setup\<close>.
\<close>

definition run_A :: "filesystem \<Rightarrow> (error + unit) \<times> event list" where
  "run_A fs = variant_A fs []"

definition run_B :: "filesystem \<Rightarrow> (error + unit) \<times> event list" where
  "run_B fs = variant_B fs []"

fun setup_calls :: "event list \<Rightarrow> config list" where
  "setup_calls [] = []"
| "setup_calls (Open_file p # evs) = setup_calls evs"
| "setup_calls (Call_setup cfg # evs) = cfg # setup_calls evs"

section \<open>The words of the specification\<close>

text \<open>
  The specification speaks of the lines of the version file and of a line of the form
  \<^verbatim>\<open>__version__ = "<value>"\<close>. The anchor of the pattern knows LF only, so the
  lines are the pieces between LFs, as \<^verbatim>\<open>text.split("\n")\<close> gives them.
\<close>

fun lines_LF :: "pystr \<Rightarrow> pystr list" where
  "lines_LF [] = [[]]"
| "lines_LF (c # cs) =
     (if c = LF then [] # lines_LF cs
      else (case lines_LF cs of [] \<Rightarrow> [[c]] | l # ls \<Rightarrow> (c # l) # ls))"

text \<open>
  A line is of that form when the pattern matches inside the line, from its start:
  \<open>match_here l\<close> is then its quoted substring. \<open>spec_first_version_line\<close> is the
  quoted substring of the first such line, as the specification words the extraction.
\<close>

definition spec_first_version_line :: "pystr \<Rightarrow> pystr option" where
  "spec_first_version_line s =
     (case find (\<lambda>l. match_here l \<noteq> None) (lines_LF s) of
        None \<Rightarrow> None
      | Some l \<Rightarrow> match_here l)"

text \<open>
  The pattern has a match in \<open>s\<close>: at the start of the text or right after an LF stands
  the literal \<^verbatim>\<open>__version__ = "\<close>, and a double quote comes somewhere after it.
\<close>

definition pattern_found :: "pystr \<Rightarrow> bool" where
  "pattern_found s \<longleftrightarrow>
     (\<exists>pre v post. s = pre @ VERSION_LITERAL @ v @ DQUOTE # post \<and> (pre = [] \<or> last pre = LF))"

section \<open>Example directories\<close>

text \<open>The scenario of the specification, for both variants.\<close>

definition fs_scenario :: filesystem where
  \<open>fs_scenario =
     [README \<mapsto> str ''# Title'',
      REQUIREMENTS \<mapsto> str ''numpy==1.0\<newline>requests'',
      REQUIREMENTS_DEV \<mapsto> str ''pytest'',
      VERSION_FILE \<mapsto> str ''__version__ = "1.2.3"'']\<close>

text \<open>The same directory with another version file.\<close>

definition with_version_file :: "pystr \<Rightarrow> filesystem" where
  "with_version_file content = fs_scenario(VERSION_FILE \<mapsto> content)"

text \<open>A first line that opens the quote and does not close it, then a well-formed line.\<close>

definition unclosed_then_version :: pystr where
  \<open>unclosed_then_version = str ''__version__ = "abc\<newline>__version__ = "1.2.3"\<newline>''\<close>

text \<open>A first line that opens the quote and does not close it, then a line with quotes.\<close>

definition unclosed_then_quotes :: pystr where
  \<open>unclosed_then_quotes = str ''__version__ = "1.2.3\<newline>__all__ = ["foo"]\<newline>''\<close>

text \<open>A version file that says nothing of a version.\<close>

definition no_version_text :: pystr where
  "no_version_text = str ''# no version here\<newline>''"

text \<open>Another directory for variant B, and the scenario without its description file.\<close>

definition fs_other :: filesystem where
  "fs_other =
     [README \<mapsto> str ''Other project'',
      REQUIREMENTS \<mapsto> [],
      REQUIREMENTS_DEV \<mapsto> str ''b\<newline>a\<newline>\<newline>b\<newline>'']"

definition fs_no_readme :: filesystem where
  "fs_no_readme = fs_scenario(README := None)"

text \<open>The scenario without its version file.\<close>

definition fs_no_version_file :: filesystem where
  "fs_no_version_file = fs_scenario(VERSION_FILE := None)"

section \<open>Facts about the runs\<close>

text \<open>
  A run written out: the first read that fails ends it, then the assertion, and only a run
  that passes all of them calls \<^verbatim>\<open>setup\<close>.
\<close>

lemma run_A_unfold:
  "run_A fs =
    (case fs README of
       None \<Rightarrow> (Inl (FileAccessError README), [Open_file README])
     | Some d \<Rightarrow>
    (case fs REQUIREMENTS of
       None \<Rightarrow> (Inl (FileAccessError REQUIREMENTS), [Open_file README, Open_file REQUIREMENTS])
     | Some r \<Rightarrow>
    (case fs REQUIREMENTS_DEV of
       None \<Rightarrow> (Inl (FileAccessError REQUIREMENTS_DEV),
                 [Open_file README, Open_file REQUIREMENTS, Open_file REQUIREMENTS_DEV])
     | Some rd \<Rightarrow>
    (case fs VERSION_FILE of
       None \<Rightarrow> (Inl (FileAccessError VERSION_FILE),
                 [Open_file README, Open_file REQUIREMENTS, Open_file REQUIREMENTS_DEV,
                  Open_file VERSION_FILE])
     | Some vt \<Rightarrow>
    (case version_re vt of
       None \<Rightarrow> (Inl (AssertionError NOT_FOUND_MESSAGE),
                 [Open_file README, Open_file REQUIREMENTS, Open_file REQUIREMENTS_DEV,
                  Open_file VERSION_FILE])
     | Some v \<Rightarrow>
         (Inr (),
          [Open_file README, Open_file REQUIREMENTS, Open_file REQUIREMENTS_DEV,
           Open_file VERSION_FILE,
           Call_setup (setup_kwargs_A d (splitlines r) (splitlines rd) v)]))))))"
  by (simp add: run_A_def variant_A_def bind_def open_read_def read_lines_def return_value_def
      assert_found_def call_setup_def split: option.splits)

lemma run_B_unfold:
  "run_B fs =
    (case fs README of
       None \<Rightarrow> (Inl (FileAccessError README), [Open_file README])
     | Some d \<Rightarrow>
    (case fs REQUIREMENTS of
       None \<Rightarrow> (Inl (FileAccessError REQUIREMENTS), [Open_file README, Open_file REQUIREMENTS])
     | Some r \<Rightarrow>
    (case fs REQUIREMENTS_DEV of
       None \<Rightarrow> (Inl (FileAccessError REQUIREMENTS_DEV),
                 [Open_file README, Open_file REQUIREMENTS, Open_file REQUIREMENTS_DEV])
     | Some rd \<Rightarrow>
         (Inr (),
          [Open_file README, Open_file REQUIREMENTS, Open_file REQUIREMENTS_DEV,
           Call_setup (setup_kwargs_B d (splitlines r) (splitlines rd))]))))"
  by (simp add: run_B_def variant_B_def bind_def open_read_def read_lines_def return_value_def
      call_setup_def split: option.splits)

lemma paths_distinct:
  "README \<noteq> REQUIREMENTS" "README \<noteq> REQUIREMENTS_DEV" "README \<noteq> VERSION_FILE"
  "REQUIREMENTS \<noteq> REQUIREMENTS_DEV" "REQUIREMENTS \<noteq> VERSION_FILE"
  "REQUIREMENTS_DEV \<noteq> VERSION_FILE"
  by (simp_all add: README_def REQUIREMENTS_def REQUIREMENTS_DEV_def VERSION_FILE_def
      PROJECT_NAME_def)

section \<open>Facts about the version pattern\<close>

lemma VERSION_LITERAL_nonempty: "VERSION_LITERAL \<noteq> []"
  by (simp add: VERSION_LITERAL_def str_def)

lemma LF_notin_VERSION_LITERAL: "LF \<notin> set VERSION_LITERAL"
  by (simp add: VERSION_LITERAL_def str_def LF_def)

lemma match_here_literal:
  "DQUOTE \<notin> set v \<Longrightarrow> match_here (VERSION_LITERAL @ v @ DQUOTE # post) = Some v"
  by (auto simp: match_here_def takeWhile_tail)

lemma match_here_append:
  assumes "match_here l = Some v"
  shows "match_here (l @ rest) = Some v"
proof -
  from assms have p: "prefix VERSION_LITERAL l"
    and q: "DQUOTE \<in> set (drop (length VERSION_LITERAL) l)"
    and v: "v = takeWhile (\<lambda>c. c \<noteq> DQUOTE) (drop (length VERSION_LITERAL) l)"
    by (auto simp: match_here_def Let_def split: if_splits)
  from p have len: "length VERSION_LITERAL \<le> length l"
    by (rule prefix_length_le)
  from p have "prefix VERSION_LITERAL (l @ rest)"
    by (rule prefix_prefix)
  moreover have "takeWhile (\<lambda>c. c \<noteq> DQUOTE) (drop (length VERSION_LITERAL) l @ rest) = v"
    using q v by (simp add: takeWhile_append1)
  ultimately show ?thesis
    using q len by (simp add: match_here_def)
qed

lemma match_here_Some_iff:
  "match_here s \<noteq> None \<longleftrightarrow> (\<exists>v post. s = VERSION_LITERAL @ v @ DQUOTE # post)"
proof
  assume "match_here s \<noteq> None"
  then have p: "prefix VERSION_LITERAL s"
    and q: "DQUOTE \<in> set (drop (length VERSION_LITERAL) s)"
    by (auto simp: match_here_def Let_def split: if_splits)
  from p obtain r where s: "s = VERSION_LITERAL @ r"
    by (auto simp: prefix_def)
  with q have "DQUOTE \<in> set r" by simp
  then obtain v post where "r = v @ DQUOTE # post"
    by (auto dest: split_list)
  with s show "\<exists>v post. s = VERSION_LITERAL @ v @ DQUOTE # post" by blast
next
  assume "\<exists>v post. s = VERSION_LITERAL @ v @ DQUOTE # post"
  then show "match_here s \<noteq> None"
    by (auto simp: match_here_def)
qed

lemma no_match_not_prefix: "\<not> prefix VERSION_LITERAL s \<Longrightarrow> match_here s = None"
  by (simp add: match_here_def)

lemma not_prefix_line:
  assumes "LF \<notin> set l" and "\<not> prefix VERSION_LITERAL l"
  shows "\<not> prefix VERSION_LITERAL (l @ LF # r)"
proof
  assume "prefix VERSION_LITERAL (l @ LF # r)"
  then obtain us where us: "VERSION_LITERAL = l @ us" and "prefix us (LF # r)"
    using assms(2) by (auto simp: prefix_append)
  then have "us = [] \<or> (\<exists>us'. us = LF # us')"
    by (cases us) auto
  then show False
  proof
    assume "us = []"
    with us assms(2) show False by simp
  next
    assume "\<exists>us'. us = LF # us'"
    then obtain us' where "us = LF # us'" by blast
    with us have "VERSION_LITERAL = l @ LF # us'" by simp
    then have "LF \<in> set VERSION_LITERAL" by (metis in_set_conv_decomp)
    with LF_notin_VERSION_LITERAL show False by simp
  qed
qed

lemma re_search_inside_line:
  "LF \<notin> set l \<Longrightarrow> re_search_from False (l @ LF # r) = re_search_from True r"
  by (induction l) auto

lemma re_search_inside_last_line:
  "LF \<notin> set l \<Longrightarrow> re_search_from False l = None"
  by (induction l) auto

lemma re_search_skip_line:
  assumes "LF \<notin> set l" and "\<not> prefix VERSION_LITERAL l"
  shows "re_search_from True (l @ LF # r) = re_search_from True r"
proof (cases l)
  case Nil
  have "match_here (LF # r) = None"
    using not_prefix_line [OF assms, of r] Nil by (simp add: no_match_not_prefix)
  with Nil show ?thesis by simp
next
  case (Cons c l')
  have "match_here (c # l' @ LF # r) = None"
    using not_prefix_line [OF assms, of r] Cons by (simp add: no_match_not_prefix)
  moreover have "c \<noteq> LF" and "LF \<notin> set l'"
    using assms(1) Cons by auto
  ultimately show ?thesis
    using Cons by (simp add: re_search_inside_line)
qed

lemma re_search_skip_last_line:
  assumes "LF \<notin> set l" and "\<not> prefix VERSION_LITERAL l"
  shows "re_search_from True l = None"
proof (cases l)
  case Nil
  then show ?thesis by simp
next
  case (Cons c l')
  have "c \<noteq> LF" and "LF \<notin> set l'"
    using assms(1) Cons by auto
  then show ?thesis
    using Cons assms(2) by (simp add: no_match_not_prefix re_search_inside_last_line)
qed

lemma re_search_match_line:
  assumes "match_here l = Some v"
  shows "re_search_from True (l @ rest) = Some v"
proof -
  from assms have "l \<noteq> []"
    using VERSION_LITERAL_nonempty by (auto simp: match_here_def split: if_splits)
  then obtain c l' where l: "l = c # l'" by (cases l) auto
  from match_here_append [OF assms, of rest] l show ?thesis by simp
qed

lemma lines_LF_nonempty: "lines_LF s \<noteq> []"
  by (induction s) (auto split: list.splits)

lemma lines_LF_last_line: "LF \<notin> set l \<Longrightarrow> lines_LF l = [l]"
  by (induction l) auto

lemma lines_LF_line: "LF \<notin> set l \<Longrightarrow> lines_LF (l @ LF # r) = l # lines_LF r"
  by (induction l) auto


lemma re_search_first_prefixed_line:
  "find (prefix VERSION_LITERAL) (lines_LF s) = Some l \<Longrightarrow> match_here l = Some v
   \<Longrightarrow> re_search_from True s = Some v"
proof (induction s rule: length_induct)
  case (1 s)
  show ?case
  proof (cases "LF \<in> set s")
    case True
    then obtain l0 r where s: "s = l0 @ LF # r" and l0: "LF \<notin> set l0"
      by (auto dest: split_list_first)
    have ls: "lines_LF s = l0 # lines_LF r"
      using s l0 by (simp add: lines_LF_line)
    show ?thesis
    proof (cases "prefix VERSION_LITERAL l0")
      case True
      with ls "1.prems"(1) have "l = l0" by simp
      with "1.prems"(2) s show ?thesis
        by (simp add: re_search_match_line)
    next
      case False
      with ls "1.prems"(1) have "find (prefix VERSION_LITERAL) (lines_LF r) = Some l"
        by simp
      moreover have "length r < length s" using s by simp
      ultimately have "re_search_from True r = Some v"
        using "1.IH" "1.prems"(2) by blast
      with s l0 False show ?thesis
        by (simp add: re_search_skip_line)
    qed
  next
    case False
    then have "lines_LF s = [s]" by (rule lines_LF_last_line)
    with "1.prems"(1) have "l = s"
      by (simp split: if_splits)
    with "1.prems"(2) re_search_match_line [of s v "[]"] show ?thesis by simp
  qed
qed

lemma find_stronger:
  "find P ls = Some l \<Longrightarrow> Q l \<Longrightarrow> (\<And>x. Q x \<Longrightarrow> P x) \<Longrightarrow> find Q ls = Some l"
  by (induction ls) (auto split: if_splits)

lemma match_here_prefix: "match_here l \<noteq> None \<Longrightarrow> prefix VERSION_LITERAL l"
  by (simp add: match_here_def split: if_splits)

lemma re_search_None_iff:
  "re_search_from b s = None \<longleftrightarrow>
     \<not> (\<exists>pre v post. s = pre @ VERSION_LITERAL @ v @ DQUOTE # post
           \<and> (if pre = [] then b else last pre = LF))"
proof (induction s arbitrary: b)
  case Nil
  then show ?case using VERSION_LITERAL_nonempty by simp
next
  case (Cons c cs)
  have here: "(\<exists>v post. c # cs = [] @ VERSION_LITERAL @ v @ DQUOTE # post)
      \<longleftrightarrow> match_here (c # cs) \<noteq> None"
    using match_here_Some_iff [of "c # cs"] by simp
  have later: "(\<exists>pre v post. c # cs = pre @ VERSION_LITERAL @ v @ DQUOTE # post
        \<and> pre \<noteq> [] \<and> last pre = LF)
      \<longleftrightarrow> re_search_from (c = LF) cs \<noteq> None" (is "?L \<longleftrightarrow> ?R")
  proof
    assume ?L
    then obtain pre v post where eq: "c # cs = pre @ VERSION_LITERAL @ v @ DQUOTE # post"
      and ne: "pre \<noteq> []" and la: "last pre = LF" by blast
    from ne obtain pre' where pre: "pre = c # pre'" using eq by (cases pre) auto
    with eq have "cs = pre' @ VERSION_LITERAL @ v @ DQUOTE # post" by simp
    moreover have "if pre' = [] then c = LF else last pre' = LF"
      using la pre by (auto split: if_splits)
    ultimately have "\<exists>pre v post. cs = pre @ VERSION_LITERAL @ v @ DQUOTE # post
           \<and> (if pre = [] then c = LF else last pre = LF)"
      by (intro exI conjI)
    then show ?R using Cons.IH [of "c = LF"] by simp
  next
    assume ?R
    then have "\<exists>pre v post. cs = pre @ VERSION_LITERAL @ v @ DQUOTE # post
           \<and> (if pre = [] then c = LF else last pre = LF)"
      using Cons.IH [of "c = LF"] by simp
    then obtain pre' v post where eq: "cs = pre' @ VERSION_LITERAL @ v @ DQUOTE # post"
      and la: "if pre' = [] then c = LF else last pre' = LF"
      by (elim exE conjE)
    have "c # cs = (c # pre') @ VERSION_LITERAL @ v @ DQUOTE # post" using eq by simp
    moreover have "last (c # pre') = LF" using la by (auto split: if_splits)
    ultimately show ?L by blast
  qed
  have split: "(\<exists>pre v post. c # cs = pre @ VERSION_LITERAL @ v @ DQUOTE # post
        \<and> (if pre = [] then b else last pre = LF))
     \<longleftrightarrow> (b \<and> (\<exists>v post. c # cs = [] @ VERSION_LITERAL @ v @ DQUOTE # post))
       \<or> (\<exists>pre v post. c # cs = pre @ VERSION_LITERAL @ v @ DQUOTE # post
        \<and> pre \<noteq> [] \<and> last pre = LF)" (is "?A \<longleftrightarrow> ?B \<or> ?C")
  proof
    assume ?A
    then obtain pre v post where eq: "c # cs = pre @ VERSION_LITERAL @ v @ DQUOTE # post"
      and la: "if pre = [] then b else last pre = LF" by blast
    show "?B \<or> ?C"
    proof (cases "pre = []")
      case True
      with eq la show ?thesis by auto
    next
      case False
      with eq la have ?C by (intro exI [of _ pre] exI [of _ v] exI [of _ post]) simp
      then show ?thesis ..
    qed
  next
    assume "?B \<or> ?C"
    then show ?A
    proof
      assume ?B
      then obtain v post where "b" and "c # cs = [] @ VERSION_LITERAL @ v @ DQUOTE # post"
        by blast
      then show ?A by (intro exI [of _ "[]"] exI [of _ v] exI [of _ post]) simp
    next
      assume ?C
      then show ?A by auto
    qed
  qed
  show ?case
    unfolding split here later
    by (cases "match_here (c # cs)") auto
qed

lemma version_re_None_iff: "version_re s = None \<longleftrightarrow> \<not> pattern_found s"
  unfolding version_re_def pattern_found_def re_search_None_iff
  by (metis (full_types))

section \<open>Facts about \<^verbatim>\<open>splitlines\<close>\<close>

lemma is_linebreak_LF: "is_linebreak LF"
  by (simp add: is_linebreak_def LF_def)

lemma LF_not_CR: "LF \<noteq> CR"
  by (simp add: LF_def CR_def)

lemma skip_break_LF: "skip_break (LF # r) = r"
  by (cases r) (simp_all add: LF_not_CR)

lemma skip_break_append: "r \<noteq> [] \<Longrightarrow> skip_break (b # r @ w) = skip_break (b # r) @ w"
  by (cases r) auto

lemma splitlines_no_break:
  assumes "s \<noteq> []" and "\<forall>c\<in>set s. \<not> is_linebreak c"
  shows "splitlines s = [s]"
proof -
  from assms(1) obtain c cs where s: "s = c # cs" by (cases s) auto
  have "takeWhile (\<lambda>x. \<not> is_linebreak x) s = s"
    and "dropWhile (\<lambda>x. \<not> is_linebreak x) s = []"
    using assms(2) by simp_all
  then show ?thesis
    unfolding s by (simp del: takeWhile.simps dropWhile.simps)
qed

lemma splitlines_break:
  assumes "\<forall>c\<in>set x. \<not> is_linebreak c" and "is_linebreak b"
  shows "splitlines (x @ b # r) = x # splitlines (skip_break (b # r))"
proof -
  obtain c cs where s: "x @ b # r = c # cs" by (cases x) auto
  have "takeWhile (\<lambda>x. \<not> is_linebreak x) (x @ b # r) = x"
    and "dropWhile (\<lambda>x. \<not> is_linebreak x) (x @ b # r) = b # r"
    using assms by (simp_all add: takeWhile_tail dropWhile_append3)
  then have "takeWhile (\<lambda>x. \<not> is_linebreak x) (c # cs) = x"
    and "dropWhile (\<lambda>x. \<not> is_linebreak x) (c # cs) = b # r"
    unfolding s by simp_all
  then have "splitlines (c # cs) = x # splitlines (skip_break (b # r))"
    by (simp del: takeWhile.simps dropWhile.simps skip_break.simps)
  then show ?thesis unfolding s .
qed

lemma splitlines_line:
  "\<forall>c\<in>set x. \<not> is_linebreak c \<Longrightarrow> splitlines (x @ LF # r) = x # splitlines r"
  by (simp add: splitlines_break is_linebreak_LF skip_break_LF del: skip_break.simps)

lemma first_break:
  assumes "\<not> (\<forall>c\<in>set s. \<not> is_linebreak c)"
  obtains x b r where "s = x @ b # r" and "\<forall>c\<in>set x. \<not> is_linebreak c" and "is_linebreak b"
proof -
  from assms have "\<exists>c\<in>set s. is_linebreak c" by simp
  then have "\<exists>x b r. s = x @ b # r \<and> is_linebreak b \<and> (\<forall>c\<in>set x. \<not> is_linebreak c)"
    by (rule split_list_first_prop)
  then show thesis using that by blast
qed

lemma splitlines_final_LF:
  "splitlines (t @ [LF]) =
     splitlines t @ (if t = [] \<or> (is_linebreak (last t) \<and> last t \<noteq> CR) then [[]] else [])"
proof (induction t rule: length_induct)
  case (1 t)
  show ?case
  proof (cases "t = []")
    case True
    then show ?thesis
      using splitlines_line [of "[]" "[]"] by simp
  next
    case ne: False
    show ?thesis
    proof (cases "\<forall>c\<in>set t. \<not> is_linebreak c")
      case True
      then have "\<not> is_linebreak (last t)" using ne by simp
      then show ?thesis
        using True ne by (simp add: splitlines_line splitlines_no_break)
    next
      case False
      then obtain x b r where t: "t = x @ b # r" and x: "\<forall>c\<in>set x. \<not> is_linebreak c"
        and b: "is_linebreak b" by (rule first_break)
      have left: "splitlines t = x # splitlines (skip_break (b # r))"
        unfolding t using x b by (rule splitlines_break)
      have right: "splitlines (t @ [LF]) = x # splitlines (skip_break (b # r @ [LF]))"
        unfolding t using splitlines_break [OF x b, of "r @ [LF]"] by simp
      show ?thesis
      proof (cases r)
        case Nil
        have "splitlines [LF] = [[]]"
          using splitlines_line [of "[]" "[]"] by simp
        then show ?thesis
          unfolding left right using Nil t b by simp
      next
        case (Cons c r')
        define t' where "t' = skip_break (b # r)"
        have sk: "skip_break (b # r @ [LF]) = t' @ [LF]"
          unfolding t'_def using Cons by (intro skip_break_append) simp
        have "length t' < length t"
          unfolding t'_def t using length_skip_break [of "b # r"] by simp
        then have ih: "splitlines (t' @ [LF]) =
            splitlines t' @ (if t' = [] \<or> (is_linebreak (last t') \<and> last t' \<noteq> CR) then [[]] else [])"
          using "1.IH" by blast
        have cond: "(t' = [] \<or> (is_linebreak (last t') \<and> last t' \<noteq> CR))
            \<longleftrightarrow> (is_linebreak (last t) \<and> last t \<noteq> CR)"
          unfolding t'_def t using Cons
          by (auto simp: is_linebreak_LF LF_not_CR)
        show ?thesis
          unfolding left right sk ih cond t'_def [symmetric] using ne by simp
      qed
    qed
  qed
qed

lemma splitlines_append_line:
  "splitlines (u @ LF # v) = splitlines (u @ [LF]) @ splitlines v"
proof (induction u rule: length_induct)
  case (1 u)
  have one: "splitlines [LF] = [[]]"
    using splitlines_line [of "[]" "[]"] by simp
  show ?case
  proof (cases "\<forall>c\<in>set u. \<not> is_linebreak c")
    case True
    then show ?thesis
      using splitlines_line [OF True, of v] splitlines_line [OF True, of "[]"] by simp
  next
    case False
    then obtain x b r where u: "u = x @ b # r" and x: "\<forall>c\<in>set x. \<not> is_linebreak c"
      and b: "is_linebreak b" by (rule first_break)
    have left: "splitlines (u @ LF # v) = x # splitlines (skip_break (b # r @ LF # v))"
      unfolding u using splitlines_break [OF x b, of "r @ LF # v"] by simp
    have right: "splitlines (u @ [LF]) = x # splitlines (skip_break (b # r @ [LF]))"
      unfolding u using splitlines_break [OF x b, of "r @ [LF]"] by simp
    show ?thesis
    proof (cases r)
      case Nil
      then show ?thesis
        unfolding left right using one splitlines_line [of "[]" v] by simp
    next
      case (Cons c r')
      define u' where "u' = skip_break (b # r)"
      have sk1: "skip_break (b # r @ LF # v) = u' @ LF # v"
        unfolding u'_def using Cons by (intro skip_break_append) simp
      have sk2: "skip_break (b # r @ [LF]) = u' @ [LF]"
        unfolding u'_def using Cons by (intro skip_break_append) simp
      have "length u' < length u"
        unfolding u'_def u using length_skip_break [of "b # r"] by simp
      then have "splitlines (u' @ LF # v) = splitlines (u' @ [LF]) @ splitlines v"
        using "1.IH" by blast
      then show ?thesis
        unfolding left right sk1 sk2 by simp
    qed
  qed
qed

lemma splitlines_join:
  "\<forall>l\<in>set ls. \<forall>c\<in>set l. \<not> is_linebreak c
   \<Longrightarrow> splitlines (concat (map (\<lambda>l. l @ [LF]) ls)) = ls"
  by (induction ls) (simp_all add: splitlines_line)

section \<open>The example directories, evaluated\<close>

lemma fs_scenario_files:
  "fs_scenario README = Some (str ''# Title'')"
  "fs_scenario REQUIREMENTS = Some (str ''numpy==1.0\<newline>requests'')"
  "fs_scenario REQUIREMENTS_DEV = Some (str ''pytest'')"
  \<open>fs_scenario VERSION_FILE = Some (str ''__version__ = "1.2.3"'')\<close>
  by (simp_all add: fs_scenario_def README_def REQUIREMENTS_def REQUIREMENTS_DEV_def
      VERSION_FILE_def PROJECT_NAME_def)

lemma with_version_file_files:
  "with_version_file content README = Some (str ''# Title'')"
  "with_version_file content REQUIREMENTS = Some (str ''numpy==1.0\<newline>requests'')"
  "with_version_file content REQUIREMENTS_DEV = Some (str ''pytest'')"
  "with_version_file content VERSION_FILE = Some content"
  using paths_distinct by (simp_all add: with_version_file_def fs_scenario_files)

lemma fs_other_files:
  "fs_other README = Some (str ''Other project'')"
  "fs_other REQUIREMENTS = Some []"
  "fs_other REQUIREMENTS_DEV = Some (str ''b\<newline>a\<newline>\<newline>b\<newline>'')"
  by (simp_all add: fs_other_def README_def REQUIREMENTS_def REQUIREMENTS_DEV_def)

lemma fs_no_readme_files: "fs_no_readme README = None"
  by (simp add: fs_no_readme_def)

lemma fs_no_version_file_files:
  "fs_no_version_file README = Some (str ''# Title'')"
  "fs_no_version_file REQUIREMENTS = Some (str ''numpy==1.0\<newline>requests'')"
  "fs_no_version_file REQUIREMENTS_DEV = Some (str ''pytest'')"
  "fs_no_version_file VERSION_FILE = None"
  using paths_distinct by (simp_all add: fs_no_version_file_def fs_scenario_files)


lemma pattern_found_scenario: \<open>pattern_found (str ''__version__ = "1.2.3"'')\<close>
proof -
  have \<open>version_re (str ''__version__ = "1.2.3"'') \<noteq> None\<close>
    by (simp add: version_re_def str_def match_here_def VERSION_LITERAL_def DQUOTE_def)
  then show ?thesis by (simp add: version_re_None_iff)
qed

lemma version_re_scenario: \<open>version_re (str ''__version__ = "1.2.3"'') = Some (str ''1.2.3'')\<close>
  by (simp add: version_re_def str_def match_here_def VERSION_LITERAL_def DQUOTE_def)

lemma splitlines_examples:
  "splitlines (str ''numpy==1.0\<newline>requests'') = [str ''numpy==1.0'', str ''requests'']"
  "splitlines (str ''pytest'') = [str ''pytest'']"
  "splitlines (str ''b\<newline>a\<newline>\<newline>b\<newline>'') = [str ''b'', str ''a'', [], str ''b'']"
  by (simp_all add: str_def is_linebreak_def CR_def LF_def)

lemma run_scenario:
  "run_A fs_scenario =
     (Inr (), [Open_file README, Open_file REQUIREMENTS, Open_file REQUIREMENTS_DEV,
               Open_file VERSION_FILE,
               Call_setup (setup_kwargs_A (str ''# Title'') [str ''numpy==1.0'', str ''requests'']
                 [str ''pytest''] (str ''1.2.3''))])"
  "run_B fs_scenario =
     (Inr (), [Open_file README, Open_file REQUIREMENTS, Open_file REQUIREMENTS_DEV,
               Call_setup (setup_kwargs_B (str ''# Title'') [str ''numpy==1.0'', str ''requests'']
                 [str ''pytest''])])"
  by (simp_all add: run_A_unfold run_B_unfold fs_scenario_files version_re_scenario
      splitlines_examples)

lemma run_other:
  "run_B fs_other =
     (Inr (), [Open_file README, Open_file REQUIREMENTS, Open_file REQUIREMENTS_DEV,
               Call_setup (setup_kwargs_B (str ''Other project'') []
                 [str ''b'', str ''a'', [], str ''b''])])"
  by (simp add: run_B_unfold fs_other_files splitlines_examples)


section \<open>The claims\<close>

subsection \<open>C1\<close>

text \<open>
  \<^bold>\<open>C1\<close> (as amended). When the first line of the version file that begins with
  \<^verbatim>\<open>__version__ = "\<close> closes the quote on that same line, the single search of
  variant A returns, as its first group, exactly the quoted substring \<open>v\<close> of that line;
  this is then also the quoted substring of the first line of the form
  \<^verbatim>\<open>__version__ = "<value>"\<close>. The value is any text without a double quote, so
  in particular a digit triple such as \<^verbatim>\<open>1.2.3\<close>.
\<close>

theorem C1_first_prefixed_line:
  assumes "find (prefix VERSION_LITERAL) (lines_LF s) = Some (VERSION_LITERAL @ v @ DQUOTE # rest)"
    and "DQUOTE \<notin> set v"
  shows "version_re s = Some v \<and> spec_first_version_line s = Some v"
proof -
  define l where "l = VERSION_LITERAL @ v @ DQUOTE # rest"
  have first: "find (prefix VERSION_LITERAL) (lines_LF s) = Some l"
    using assms(1) by (simp add: l_def)
  have form: "match_here l = Some v"
    unfolding l_def using assms(2) by (rule match_here_literal)
  have "version_re s = Some v"
    unfolding version_re_def using first form by (rule re_search_first_prefixed_line)
  moreover have "find (\<lambda>l. match_here l \<noteq> None) (lines_LF s) = Some l"
    using first
  proof (rule find_stronger)
    show "match_here l \<noteq> None" using form by simp
  next
    fix x
    assume "match_here x \<noteq> None"
    then show "prefix VERSION_LITERAL x" by (rule match_here_prefix)
  qed
  then have "spec_first_version_line s = Some v"
    using form by (simp add: spec_first_version_line_def)
  ultimately show ?thesis ..
qed

text \<open>
  The hypotheses at a file with a comment line first and a second version line last: the
  search stops at the first match.
\<close>

theorem C1_first_prefixed_line_witness:
  \<open>find (prefix VERSION_LITERAL)
      (lines_LF (str ''x = 1\<newline>__version__ = "1.2.3"\<newline>__version__ = "4"''))
     = Some (VERSION_LITERAL @ str ''1.2.3'' @ DQUOTE # [])
   \<and> DQUOTE \<notin> set (str ''1.2.3'')
   \<and> version_re (str ''x = 1\<newline>__version__ = "1.2.3"\<newline>__version__ = "4"'')
     = Some (str ''1.2.3'')
   \<and> spec_first_version_line (str ''x = 1\<newline>__version__ = "1.2.3"\<newline>__version__ = "4"'')
     = Some (str ''1.2.3'')\<close>
proof -
  have a: \<open>find (prefix VERSION_LITERAL)
      (lines_LF (str ''x = 1\<newline>__version__ = "1.2.3"\<newline>__version__ = "4"''))
     = Some (VERSION_LITERAL @ str ''1.2.3'' @ DQUOTE # [])\<close>
    by (simp add: str_def VERSION_LITERAL_def LF_def DQUOTE_def)
  have b: "DQUOTE \<notin> set (str ''1.2.3'')"
    by (simp add: str_def DQUOTE_def)
  from C1_first_prefixed_line [OF a b] a b show ?thesis by simp
qed

text \<open>
  The claim as worded (C1) fails: the group \<^verbatim>\<open>[^"]*\<close> runs over line ends. Here the
  first line opens the quote without closing it and the second line is
  \<^verbatim>\<open>__version__ = "1.2.3"\<close>: the first line of the form has the quoted substring
  \<^verbatim>\<open>1.2.3\<close>, and the search returns the text from the first opening quote up to the
  next double quote, which stands on the second line.
\<close>

theorem C1_counterexample:
  \<open>lines_LF unclosed_then_version
     = [str ''__version__ = "abc'', str ''__version__ = "1.2.3"'', []]
   \<and> map match_here (lines_LF unclosed_then_version) = [None, Some (str ''1.2.3''), None]
   \<and> spec_first_version_line unclosed_then_version = Some (str ''1.2.3'')
   \<and> version_re unclosed_then_version = Some (str ''abc\<newline>__version__ = '')
   \<and> version_re unclosed_then_version \<noteq> spec_first_version_line unclosed_then_version\<close>
  by (simp add: spec_first_version_line_def version_re_def unclosed_then_version_def str_def
      match_here_def VERSION_LITERAL_def LF_def DQUOTE_def)

subsection \<open>C2\<close>

text \<open>
  \<^bold>\<open>C2\<close> (as amended). When the pattern has no match in the version file (no
  \<^verbatim>\<open>__version__ = "\<close> at the start of the text or right after an LF is followed,
  anywhere later in the text, by a double quote), variant A never calls \<^verbatim>\<open>setup\<close>
  and does not run to its end; when the three files before were read, it ends in the
  assertion failure with the message
  \<^verbatim>\<open>Could not find version in project/__init__.py\<close>, after the four reads. No
  version is made up in its place.
\<close>

theorem C2_no_match_halts:
  assumes "fs VERSION_FILE = Some content" and "\<not> pattern_found content"
  shows "setup_calls (snd (run_A fs)) = [] \<and> fst (run_A fs) \<noteq> Inr ()
    \<and> (fs README \<noteq> None \<and> fs REQUIREMENTS \<noteq> None \<and> fs REQUIREMENTS_DEV \<noteq> None
        \<longrightarrow> run_A fs =
            (Inl (AssertionError (str ''Could not find version in project/__init__.py'')),
             [Open_file README, Open_file REQUIREMENTS, Open_file REQUIREMENTS_DEV,
              Open_file VERSION_FILE]))"
proof -
  have "version_re content = None"
    using assms(2) by (simp add: version_re_None_iff)
  moreover have "NOT_FOUND_MESSAGE = str ''Could not find version in project/__init__.py''"
    by (simp add: NOT_FOUND_MESSAGE_def PROJECT_NAME_def str_def)
  ultimately show ?thesis
    using assms(1) by (auto simp: run_A_unfold split: option.splits)
qed

text \<open>The hypotheses at a version file that holds a comment only.\<close>

theorem C2_no_match_halts_witness:
  "with_version_file no_version_text VERSION_FILE = Some no_version_text
   \<and> \<not> pattern_found no_version_text
   \<and> setup_calls (snd (run_A (with_version_file no_version_text))) = []
   \<and> fst (run_A (with_version_file no_version_text))
       = Inl (AssertionError (str ''Could not find version in project/__init__.py''))"
proof -
  have a: "with_version_file no_version_text VERSION_FILE = Some no_version_text"
    by (rule with_version_file_files)
  have "version_re no_version_text = None"
    by (simp add: version_re_def no_version_text_def str_def match_here_def
        VERSION_LITERAL_def LF_def)
  then have b: "\<not> pattern_found no_version_text"
    by (simp add: version_re_None_iff)
  from C2_no_match_halts [of "with_version_file no_version_text" no_version_text, OF a b] a b
  show ?thesis
    by (simp add: with_version_file_files)
qed

text \<open>
  The claim as worded (C2) fails: no line of this file is of the form
  \<^verbatim>\<open>__version__ = "<value>"\<close> (the first line never closes its quote), yet the
  pattern matches across the line end, the assertion passes and \<^verbatim>\<open>setup\<close> is
  called with the version \<^verbatim>\<open>1.2.3\n__all__ = [\<close>.
\<close>

theorem C2_counterexample:
  \<open>lines_LF unclosed_then_quotes
     = [str ''__version__ = "1.2.3'', str ''__all__ = ["foo"]'', []]
   \<and> map match_here (lines_LF unclosed_then_quotes) = [None, None, None]
   \<and> spec_first_version_line unclosed_then_quotes = None
   \<and> fst (run_A (with_version_file unclosed_then_quotes)) = Inr ()
   \<and> map version (setup_calls (snd (run_A (with_version_file unclosed_then_quotes))))
       = [str ''1.2.3\<newline>__all__ = ['']\<close>
proof -
  have a: \<open>lines_LF unclosed_then_quotes
     = [str ''__version__ = "1.2.3'', str ''__all__ = ["foo"]'', []]\<close>
    by (simp add: unclosed_then_quotes_def str_def LF_def)
  have c: "map match_here (lines_LF unclosed_then_quotes) = [None, None, None]"
    unfolding a by (simp add: str_def match_here_def VERSION_LITERAL_def DQUOTE_def)
  have b: \<open>version_re unclosed_then_quotes = Some (str ''1.2.3\<newline>__all__ = ['')\<close>
    by (simp add: version_re_def unclosed_then_quotes_def str_def match_here_def
        VERSION_LITERAL_def LF_def DQUOTE_def)
  have d: "spec_first_version_line unclosed_then_quotes = None"
    unfolding spec_first_version_line_def a
    by (simp add: str_def match_here_def VERSION_LITERAL_def DQUOTE_def)
  show ?thesis
    using a b c d by (simp add: run_A_unfold with_version_file_files setup_kwargs_A_def)
qed

subsection \<open>C3\<close>

text \<open>
  \<^bold>\<open>C3\<close> (as amended). When the description file and the two requirements files are
  readable, variant B runs to its end and calls \<^verbatim>\<open>setup\<close> once, with
  \<^verbatim>\<open>install_requires\<close> the lines of \<^verbatim>\<open>requirements.txt\<close> and
  \<^verbatim>\<open>tests_require\<close> the lines of \<^verbatim>\<open>requirements-dev.txt\<close>, as
  \<^verbatim>\<open>splitlines\<close> gives them: in order, nothing removed, nothing checked
  (\<open>splitlines_join\<close>: any lines joined with LF come back as they were). Variant A does
  the same when moreover its version file is readable and the pattern has a match in it.
\<close>

theorem C3_requirement_lists:
  assumes "fs README = Some d" and "fs REQUIREMENTS = Some r" and "fs REQUIREMENTS_DEV = Some rd"
  shows "(\<exists>cfg. run_B fs =
            (Inr (), [Open_file README, Open_file REQUIREMENTS, Open_file REQUIREMENTS_DEV,
                      Call_setup cfg])
          \<and> install_requires cfg = splitlines r \<and> tests_require cfg = splitlines rd)
    \<and> (\<forall>vt. fs VERSION_FILE = Some vt \<and> pattern_found vt \<longrightarrow>
         (\<exists>cfg. run_A fs =
            (Inr (), [Open_file README, Open_file REQUIREMENTS, Open_file REQUIREMENTS_DEV,
                      Open_file VERSION_FILE, Call_setup cfg])
          \<and> install_requires cfg = splitlines r \<and> tests_require cfg = splitlines rd))"
proof (intro conjI allI impI)
  show "\<exists>cfg. run_B fs =
            (Inr (), [Open_file README, Open_file REQUIREMENTS, Open_file REQUIREMENTS_DEV,
                      Call_setup cfg])
          \<and> install_requires cfg = splitlines r \<and> tests_require cfg = splitlines rd"
    using assms by (simp add: run_B_unfold setup_kwargs_B_def)
next
  fix vt
  assume "fs VERSION_FILE = Some vt \<and> pattern_found vt"
  then have vt: "fs VERSION_FILE = Some vt" and "version_re vt \<noteq> None"
    by (simp_all add: version_re_None_iff)
  then obtain v where "version_re vt = Some v" by blast
  with vt assms show "\<exists>cfg. run_A fs =
            (Inr (), [Open_file README, Open_file REQUIREMENTS, Open_file REQUIREMENTS_DEV,
                      Open_file VERSION_FILE, Call_setup cfg])
          \<and> install_requires cfg = splitlines r \<and> tests_require cfg = splitlines rd"
    by (simp add: run_A_unfold setup_kwargs_A_def)
qed

text \<open>
  The hypotheses at the scenario of the specification (variant A) and at a directory whose
  dev requirements repeat a line, are not sorted and hold a blank line (variant B).
\<close>

theorem C3_requirement_lists_witness:
  \<open>map install_requires (setup_calls (snd (run_A fs_scenario)))
     = [[str ''numpy==1.0'', str ''requests'']]
   \<and> map tests_require (setup_calls (snd (run_A fs_scenario))) = [[str ''pytest'']]
   \<and> fst (run_A fs_scenario) = Inr ()
   \<and> map install_requires (setup_calls (snd (run_B fs_other))) = [[]]
   \<and> map tests_require (setup_calls (snd (run_B fs_other)))
     = [[str ''b'', str ''a'', [], str ''b'']]
   \<and> fst (run_B fs_other) = Inr ()\<close>
proof -
  from C3_requirement_lists [OF fs_scenario_files(1-3)]
  have \<open>fs_scenario VERSION_FILE = Some (str ''__version__ = "1.2.3"'')
      \<and> pattern_found (str ''__version__ = "1.2.3"'') \<longrightarrow>
     (\<exists>cfg. run_A fs_scenario =
        (Inr (), [Open_file README, Open_file REQUIREMENTS, Open_file REQUIREMENTS_DEV,
                  Open_file VERSION_FILE, Call_setup cfg])
      \<and> install_requires cfg = splitlines (str ''numpy==1.0\<newline>requests'')
      \<and> tests_require cfg = splitlines (str ''pytest''))\<close>
    by blast
  then obtain cfg where "run_A fs_scenario =
        (Inr (), [Open_file README, Open_file REQUIREMENTS, Open_file REQUIREMENTS_DEV,
                  Open_file VERSION_FILE, Call_setup cfg])"
    and "install_requires cfg = splitlines (str ''numpy==1.0\<newline>requests'')"
    and "tests_require cfg = splitlines (str ''pytest'')"
    using fs_scenario_files(4) pattern_found_scenario by blast
  then have a: "map install_requires (setup_calls (snd (run_A fs_scenario)))
     = [[str ''numpy==1.0'', str ''requests'']]
   \<and> map tests_require (setup_calls (snd (run_A fs_scenario))) = [[str ''pytest'']]
   \<and> fst (run_A fs_scenario) = Inr ()"
    by (simp add: splitlines_examples)
  from C3_requirement_lists [OF fs_other_files]
  obtain cfg' where "run_B fs_other =
        (Inr (), [Open_file README, Open_file REQUIREMENTS, Open_file REQUIREMENTS_DEV,
                  Call_setup cfg'])"
    and "install_requires cfg' = splitlines []"
    and "tests_require cfg' = splitlines (str ''b\<newline>a\<newline>\<newline>b\<newline>'')"
    by blast
  then have "map install_requires (setup_calls (snd (run_B fs_other))) = [[]]
   \<and> map tests_require (setup_calls (snd (run_B fs_other)))
     = [[str ''b'', str ''a'', [], str ''b'']]
   \<and> fst (run_B fs_other) = Inr ()"
    by (simp add: splitlines_examples)
  with a show ?thesis by simp
qed

text \<open>
  The claim as worded (C3) fails for variant A: all four files are readable, the version
  file holds no version, and the run ends in the assertion failure without a call of
  \<^verbatim>\<open>setup\<close>.
\<close>

theorem C3_counterexample:
  "with_version_file no_version_text README \<noteq> None
   \<and> with_version_file no_version_text REQUIREMENTS \<noteq> None
   \<and> with_version_file no_version_text REQUIREMENTS_DEV \<noteq> None
   \<and> with_version_file no_version_text VERSION_FILE \<noteq> None
   \<and> fst (run_A (with_version_file no_version_text)) = Inl (AssertionError NOT_FOUND_MESSAGE)
   \<and> setup_calls (snd (run_A (with_version_file no_version_text))) = []"
proof -
  have "version_re no_version_text = None"
    by (simp add: version_re_def no_version_text_def str_def match_here_def
        VERSION_LITERAL_def LF_def)
  then show ?thesis
    by (simp add: run_A_unfold with_version_file_files)
qed

subsection \<open>C4\<close>

text \<open>
  \<^bold>\<open>C4\<close>. When one of the files a variant needs is absent or unreadable, the run ends
  in the file-access error of a file that could not be read, and \<^verbatim>\<open>setup\<close> is
  never called, so no record exists. When \<^verbatim>\<open>README.md\<close> is the one, the run of
  either variant is the failed attempt to open it and nothing else.
\<close>

theorem C4_missing_file:
  "(fs README = None \<or> fs REQUIREMENTS = None \<or> fs REQUIREMENTS_DEV = None
      \<or> fs VERSION_FILE = None
    \<longrightarrow> (\<exists>p. fst (run_A fs) = Inl (FileAccessError p) \<and> fs p = None)
       \<and> setup_calls (snd (run_A fs)) = [])
   \<and> (fs README = None \<or> fs REQUIREMENTS = None \<or> fs REQUIREMENTS_DEV = None
    \<longrightarrow> (\<exists>p. fst (run_B fs) = Inl (FileAccessError p) \<and> fs p = None)
       \<and> setup_calls (snd (run_B fs)) = [])
   \<and> (fs README = None
    \<longrightarrow> run_A fs = (Inl (FileAccessError README), [Open_file README])
       \<and> run_B fs = (Inl (FileAccessError README), [Open_file README]))"
  by (auto simp: run_A_unfold run_B_unfold split: option.splits)

text \<open>
  The hypotheses at the scenario without its description file, and for variant A at the
  scenario without its version file.
\<close>

theorem C4_missing_file_witness:
  "fs_no_readme README = None
   \<and> run_A fs_no_readme = (Inl (FileAccessError README), [Open_file README])
   \<and> run_B fs_no_readme = (Inl (FileAccessError README), [Open_file README])
   \<and> setup_calls (snd (run_A fs_no_readme)) = []
   \<and> setup_calls (snd (run_B fs_no_readme)) = []
   \<and> fs_no_version_file VERSION_FILE = None
   \<and> fst (run_A fs_no_version_file) = Inl (FileAccessError VERSION_FILE)
   \<and> setup_calls (snd (run_A fs_no_version_file)) = []"
proof -
  have a: "fs_no_readme README = None
   \<and> run_A fs_no_readme = (Inl (FileAccessError README), [Open_file README])
   \<and> run_B fs_no_readme = (Inl (FileAccessError README), [Open_file README])
   \<and> setup_calls (snd (run_A fs_no_readme)) = []
   \<and> setup_calls (snd (run_B fs_no_readme)) = []"
    using C4_missing_file [of fs_no_readme] fs_no_readme_files by simp
  from C4_missing_file [of fs_no_version_file] fs_no_version_file_files(4)
  obtain p where "fst (run_A fs_no_version_file) = Inl (FileAccessError p)"
    and "fs_no_version_file p = None" and "setup_calls (snd (run_A fs_no_version_file)) = []"
    by blast
  moreover have "fst (run_A fs_no_version_file) = Inl (FileAccessError VERSION_FILE)"
    by (simp add: run_A_unfold fs_no_version_file_files)
  ultimately show ?thesis
    using a fs_no_version_file_files(4) by simp
qed

subsection \<open>C5\<close>

text \<open>
  \<^bold>\<open>C5\<close>. A version file that starts with \<^verbatim>\<open>__version__ = "\<close>, any text
  \<open>v\<close> without a double quote, and a double quote passes the assertion with the version
  \<open>v\<close>: variant A never ends in the assertion failure, and when the three files before
  were read it calls \<^verbatim>\<open>setup\<close> with \<^verbatim>\<open>version\<close> \<open>v\<close>. For
  \<^verbatim>\<open>__version__ = ""\<close> that version is the empty string.
\<close>

theorem C5_any_quoted_value:
  assumes "fs VERSION_FILE = Some (VERSION_LITERAL @ v @ DQUOTE # rest)" and "DQUOTE \<notin> set v"
  shows "version_re (VERSION_LITERAL @ v @ DQUOTE # rest) = Some v
    \<and> (\<forall>m. fst (run_A fs) \<noteq> Inl (AssertionError m))
    \<and> (fs README \<noteq> None \<and> fs REQUIREMENTS \<noteq> None \<and> fs REQUIREMENTS_DEV \<noteq> None \<longrightarrow>
         (\<exists>cfg. run_A fs =
            (Inr (), [Open_file README, Open_file REQUIREMENTS, Open_file REQUIREMENTS_DEV,
                      Open_file VERSION_FILE, Call_setup cfg])
          \<and> version cfg = v))"
proof -
  have "VERSION_LITERAL @ v @ DQUOTE # rest \<noteq> []"
    using VERSION_LITERAL_nonempty by simp
  then obtain c cs where "VERSION_LITERAL @ v @ DQUOTE # rest = c # cs"
    by (cases "VERSION_LITERAL @ v @ DQUOTE # rest") auto
  then have "version_re (VERSION_LITERAL @ v @ DQUOTE # rest) = Some v"
    using match_here_literal [OF assms(2), of rest] by (simp add: version_re_def)
  then show ?thesis
    using assms(1) by (auto simp: run_A_unfold setup_kwargs_A_def split: option.splits)
qed

text \<open>The hypotheses at the version file \<^verbatim>\<open>__version__ = ""\<close>.\<close>

theorem C5_any_quoted_value_witness:
  \<open>with_version_file (str ''__version__ = ""'') VERSION_FILE = Some (str ''__version__ = ""'')
   \<and> version_re (str ''__version__ = ""'') = Some []
   \<and> fst (run_A (with_version_file (str ''__version__ = ""''))) = Inr ()
   \<and> map version (setup_calls (snd (run_A (with_version_file (str ''__version__ = ""''))))) = [[]]\<close>
proof -
  have e: \<open>str ''__version__ = ""'' = VERSION_LITERAL @ [] @ DQUOTE # []\<close>
    by (simp add: VERSION_LITERAL_def str_def DQUOTE_def)
  have a: \<open>with_version_file (str ''__version__ = ""'') VERSION_FILE
      = Some (VERSION_LITERAL @ [] @ DQUOTE # [])\<close>
    unfolding e [symmetric] by (rule with_version_file_files)
  have b: "DQUOTE \<notin> set []" by simp
  from C5_any_quoted_value
    [of \<open>with_version_file (str ''__version__ = ""'')\<close> "[]" "[]", OF a b]
  obtain cfg where \<open>run_A (with_version_file (str ''__version__ = ""'')) =
            (Inr (), [Open_file README, Open_file REQUIREMENTS, Open_file REQUIREMENTS_DEV,
                      Open_file VERSION_FILE, Call_setup cfg])\<close> and "version cfg = []"
    and \<open>version_re (str ''__version__ = ""'') = Some []\<close>
    unfolding e [symmetric] by (auto simp: with_version_file_files)
  then show ?thesis
    by (simp add: with_version_file_files)
qed

subsection \<open>C6\<close>

text \<open>
  \<^bold>\<open>C6\<close>. Whatever the content \<open>d\<close> of the description file, every record that
  either variant gives to \<^verbatim>\<open>setup\<close> has \<^verbatim>\<open>long_description\<close> equal to
  \<open>d\<close> and \<^verbatim>\<open>long_description_content_type\<close> equal to
  \<^verbatim>\<open>text/markdown\<close>; and variant B does give one such record when the two
  requirements files are readable.
\<close>

theorem C6_long_description:
  assumes "fs README = Some d"
  shows "(\<forall>cfg \<in> set (setup_calls (snd (run_A fs))) \<union> set (setup_calls (snd (run_B fs))).
            long_description cfg = d
            \<and> long_description_content_type cfg = str ''text/markdown'')
    \<and> (fs REQUIREMENTS \<noteq> None \<and> fs REQUIREMENTS_DEV \<noteq> None
        \<longrightarrow> (\<exists>cfg. setup_calls (snd (run_B fs)) = [cfg]))"
  using assms
  by (auto simp: run_A_unfold run_B_unfold setup_kwargs_A_def setup_kwargs_B_def
      split: option.splits)

text \<open>The hypotheses at the scenario of the specification, where both variants call \<^verbatim>\<open>setup\<close>.\<close>

theorem C6_long_description_witness:
  "fs_scenario README = Some (str ''# Title'')
   \<and> setup_calls (snd (run_A fs_scenario)) \<noteq> []
   \<and> long_description (hd (setup_calls (snd (run_A fs_scenario)))) = str ''# Title''
   \<and> long_description_content_type (hd (setup_calls (snd (run_A fs_scenario))))
       = str ''text/markdown''
   \<and> setup_calls (snd (run_B fs_scenario)) \<noteq> []
   \<and> long_description (hd (setup_calls (snd (run_B fs_scenario)))) = str ''# Title''
   \<and> long_description_content_type (hd (setup_calls (snd (run_B fs_scenario))))
       = str ''text/markdown''"
proof -
  have a: "setup_calls (snd (run_A fs_scenario)) \<noteq> []"
    and b: "setup_calls (snd (run_B fs_scenario)) \<noteq> []"
    by (simp_all add: run_scenario)
  then have "hd (setup_calls (snd (run_A fs_scenario))) \<in> set (setup_calls (snd (run_A fs_scenario)))"
    and "hd (setup_calls (snd (run_B fs_scenario))) \<in> set (setup_calls (snd (run_B fs_scenario)))"
    by simp_all
  with C6_long_description [of fs_scenario "str ''# Title''", OF fs_scenario_files(1)]
    a b fs_scenario_files(1)
  show ?thesis by blast
qed

subsection \<open>C7\<close>

text \<open>
  \<^bold>\<open>C7\<close>. In every record that either variant gives to \<^verbatim>\<open>setup\<close>, the
  dictionary \<^verbatim>\<open>extras_require\<close> has the one key \<^verbatim>\<open>dev\<close>, its value is
  the list passed as \<^verbatim>\<open>tests_require\<close>, and that list is the lines of
  \<^verbatim>\<open>requirements-dev.txt\<close>.
\<close>

theorem C7_extras_dev:
  "\<forall>cfg \<in> set (setup_calls (snd (run_A fs))) \<union> set (setup_calls (snd (run_B fs))).
     dom (extras_require cfg) = {str ''dev''}
     \<and> extras_require cfg (str ''dev'') = Some (tests_require cfg)
     \<and> (\<exists>rd. fs REQUIREMENTS_DEV = Some rd \<and> tests_require cfg = splitlines rd)"
  by (auto simp: run_A_unfold run_B_unfold setup_kwargs_A_def setup_kwargs_B_def
      split: option.splits)

text \<open>The records of variant A at the scenario and of variant B at another directory.\<close>

theorem C7_extras_dev_witness:
  "setup_calls (snd (run_A fs_scenario)) \<noteq> []
   \<and> dom (extras_require (hd (setup_calls (snd (run_A fs_scenario))))) = {str ''dev''}
   \<and> extras_require (hd (setup_calls (snd (run_A fs_scenario)))) (str ''dev'')
       = Some [str ''pytest'']
   \<and> tests_require (hd (setup_calls (snd (run_A fs_scenario)))) = [str ''pytest'']
   \<and> setup_calls (snd (run_B fs_other)) \<noteq> []
   \<and> dom (extras_require (hd (setup_calls (snd (run_B fs_other))))) = {str ''dev''}
   \<and> extras_require (hd (setup_calls (snd (run_B fs_other)))) (str ''dev'')
       = Some [str ''b'', str ''a'', [], str ''b'']
   \<and> tests_require (hd (setup_calls (snd (run_B fs_other)))) = [str ''b'', str ''a'', [], str ''b'']"
proof -
  have a: "hd (setup_calls (snd (run_A fs_scenario)))
      \<in> set (setup_calls (snd (run_A fs_scenario))) \<union> set (setup_calls (snd (run_B fs_scenario)))"
    by (simp add: run_scenario)
  have b: "hd (setup_calls (snd (run_B fs_other)))
      \<in> set (setup_calls (snd (run_A fs_other))) \<union> set (setup_calls (snd (run_B fs_other)))"
    by (simp add: run_other)
  have ta: "tests_require (hd (setup_calls (snd (run_A fs_scenario)))) = [str ''pytest'']"
    and na: "setup_calls (snd (run_A fs_scenario)) \<noteq> []"
    by (simp_all add: run_scenario setup_kwargs_A_def)
  have tb: "tests_require (hd (setup_calls (snd (run_B fs_other))))
      = [str ''b'', str ''a'', [], str ''b'']"
    and nb: "setup_calls (snd (run_B fs_other)) \<noteq> []"
    by (simp_all add: run_other setup_kwargs_B_def)
  from C7_extras_dev [of fs_scenario] a
  have "dom (extras_require (hd (setup_calls (snd (run_A fs_scenario))))) = {str ''dev''}
     \<and> extras_require (hd (setup_calls (snd (run_A fs_scenario)))) (str ''dev'')
        = Some (tests_require (hd (setup_calls (snd (run_A fs_scenario)))))"
    by blast
  moreover from C7_extras_dev [of fs_other] b
  have "dom (extras_require (hd (setup_calls (snd (run_B fs_other))))) = {str ''dev''}
     \<and> extras_require (hd (setup_calls (snd (run_B fs_other)))) (str ''dev'')
        = Some (tests_require (hd (setup_calls (snd (run_B fs_other)))))"
    by blast
  ultimately show ?thesis
    using ta tb na nb by simp
qed

subsection \<open>C8\<close>

text \<open>
  \<^bold>\<open>C8\<close>. For any two directories, the records that variant B gives to
  \<^verbatim>\<open>setup\<close> carry the same \<^verbatim>\<open>version\<close>, the literal
  \<^verbatim>\<open>0.0.1\<close>.
\<close>

theorem C8_version_literal:
  "\<forall>cfg \<in> set (setup_calls (snd (run_B fs))). \<forall>cfg' \<in> set (setup_calls (snd (run_B fs'))).
     version cfg = version cfg' \<and> version cfg = str ''0.0.1''"
  by (auto simp: run_B_unfold setup_kwargs_B_def split: option.splits)

text \<open>Two directories that differ in each of the three files.\<close>

theorem C8_version_literal_witness:
  "setup_calls (snd (run_B fs_scenario)) \<noteq> []
   \<and> setup_calls (snd (run_B fs_other)) \<noteq> []
   \<and> fs_scenario README \<noteq> fs_other README
   \<and> fs_scenario REQUIREMENTS \<noteq> fs_other REQUIREMENTS
   \<and> fs_scenario REQUIREMENTS_DEV \<noteq> fs_other REQUIREMENTS_DEV
   \<and> version (hd (setup_calls (snd (run_B fs_scenario))))
       = version (hd (setup_calls (snd (run_B fs_other))))
   \<and> version (hd (setup_calls (snd (run_B fs_scenario)))) = str ''0.0.1''"
proof -
  have a: "hd (setup_calls (snd (run_B fs_scenario))) \<in> set (setup_calls (snd (run_B fs_scenario)))"
    and b: "hd (setup_calls (snd (run_B fs_other))) \<in> set (setup_calls (snd (run_B fs_other)))"
    by (simp_all add: run_scenario run_other)
  have c: "setup_calls (snd (run_B fs_scenario)) \<noteq> []"
    and d: "setup_calls (snd (run_B fs_other)) \<noteq> []"
    by (simp_all add: run_scenario run_other)
  have e: "fs_scenario README \<noteq> fs_other README"
    "fs_scenario REQUIREMENTS \<noteq> fs_other REQUIREMENTS"
    "fs_scenario REQUIREMENTS_DEV \<noteq> fs_other REQUIREMENTS_DEV"
    by (simp_all add: fs_scenario_files fs_other_files str_def)
  from C8_version_literal [of fs_scenario fs_other] a b
  have "version (hd (setup_calls (snd (run_B fs_scenario))))
       = version (hd (setup_calls (snd (run_B fs_other))))
   \<and> version (hd (setup_calls (snd (run_B fs_scenario)))) = str ''0.0.1''"
    by blast
  with c d e show ?thesis by blast
qed

subsection \<open>C9\<close>

text \<open>
  \<^bold>\<open>C9\<close>. Every run is one of these: a failed read of the description file; of the
  runtime requirements, after the description file was opened; of the dev requirements,
  after these two; for variant A of the version file, after these three, or the failed
  assertion after all four; or the call of \<^verbatim>\<open>setup\<close> after all of them. So the
  steps come in this order, a failure ends the run before any later step, and
  \<^verbatim>\<open>setup\<close> is called at most once.
\<close>

theorem C9_fixed_order:
  "(run_A fs = (Inl (FileAccessError README), [Open_file README]) \<and> fs README = None
    \<or> run_A fs = (Inl (FileAccessError REQUIREMENTS), [Open_file README, Open_file REQUIREMENTS])
      \<and> fs REQUIREMENTS = None
    \<or> run_A fs = (Inl (FileAccessError REQUIREMENTS_DEV),
                   [Open_file README, Open_file REQUIREMENTS, Open_file REQUIREMENTS_DEV])
      \<and> fs REQUIREMENTS_DEV = None
    \<or> run_A fs = (Inl (FileAccessError VERSION_FILE),
                   [Open_file README, Open_file REQUIREMENTS, Open_file REQUIREMENTS_DEV,
                    Open_file VERSION_FILE])
      \<and> fs VERSION_FILE = None
    \<or> run_A fs = (Inl (AssertionError NOT_FOUND_MESSAGE),
                   [Open_file README, Open_file REQUIREMENTS, Open_file REQUIREMENTS_DEV,
                    Open_file VERSION_FILE])
    \<or> (\<exists>cfg. run_A fs = (Inr (),
                   [Open_file README, Open_file REQUIREMENTS, Open_file REQUIREMENTS_DEV,
                    Open_file VERSION_FILE, Call_setup cfg])))
   \<and> (run_B fs = (Inl (FileAccessError README), [Open_file README]) \<and> fs README = None
    \<or> run_B fs = (Inl (FileAccessError REQUIREMENTS), [Open_file README, Open_file REQUIREMENTS])
      \<and> fs REQUIREMENTS = None
    \<or> run_B fs = (Inl (FileAccessError REQUIREMENTS_DEV),
                   [Open_file README, Open_file REQUIREMENTS, Open_file REQUIREMENTS_DEV])
      \<and> fs REQUIREMENTS_DEV = None
    \<or> (\<exists>cfg. run_B fs = (Inr (),
                   [Open_file README, Open_file REQUIREMENTS, Open_file REQUIREMENTS_DEV,
                    Call_setup cfg])))
   \<and> length (setup_calls (snd (run_A fs))) \<le> 1
   \<and> length (setup_calls (snd (run_B fs))) \<le> 1"
  by (simp add: run_A_unfold run_B_unfold split: option.splits)

subsection \<open>C10\<close>

text \<open>
  \<^bold>\<open>C10\<close> (as amended). A final LF ends the last line and opens no new one: added
  to a text that is not empty and does not end in a line boundary it adds no element, so
  \<^verbatim>\<open>"a\nb\n"\<close> gives \<^verbatim>\<open>["a", "b"]\<close>; added to the empty text or after a
  line boundary other than CR it ends a blank line, which is an empty string at the end of
  the list. The empty text gives the empty list, and a blank line between two LFs is kept
  as an empty string.
\<close>

theorem C10_splitlines_lines:
  "(\<forall>t. splitlines (t @ [LF]) =
          splitlines t @ (if t = [] \<or> (is_linebreak (last t) \<and> last t \<noteq> CR) then [[]] else []))
   \<and> splitlines (str ''a\<newline>b\<newline>'') = [str ''a'', str ''b'']
   \<and> splitlines [] = []
   \<and> (\<forall>u v. splitlines (u @ LF # LF # v) = splitlines (u @ [LF]) @ [] # splitlines v)"
proof (intro conjI allI)
  fix t
  show "splitlines (t @ [LF]) =
          splitlines t @ (if t = [] \<or> (is_linebreak (last t) \<and> last t \<noteq> CR) then [[]] else [])"
    by (rule splitlines_final_LF)
next
  show "splitlines (str ''a\<newline>b\<newline>'') = [str ''a'', str ''b'']"
    by (simp add: str_def is_linebreak_def CR_def LF_def)
next
  show "splitlines [] = []" by simp
next
  fix u v
  have "splitlines (u @ LF # LF # v) = splitlines (u @ [LF]) @ splitlines (LF # v)"
    by (rule splitlines_append_line)
  also have "splitlines (LF # v) = [] # splitlines v"
    using splitlines_line [of "[]" v] by simp
  finally show "splitlines (u @ LF # LF # v) = splitlines (u @ [LF]) @ [] # splitlines v" .
qed

text \<open>
  The claim as worded (C10) fails: the text \<^verbatim>\<open>"\n"\<close> ends in a single LF, and its
  list is \<^verbatim>\<open>[""]\<close>, whose last element is the empty string.
\<close>

theorem C10_counterexample:
  "splitlines (str ''\<newline>'') = [[]] \<and> last (splitlines (str ''\<newline>'')) = []"
  by (simp add: str_def is_linebreak_def)

end
